theory Spec2Isabelle
  imports Main
begin

section \<open>JavaScript values of the request\<close>

text \<open>
  The server parses request bodies with \<^verbatim>\<open>bodyParser.json()\<close>, so \<^verbatim>\<open>req.body\<close> is
  \<^verbatim>\<open>undefined\<close> or a value built by \<^verbatim>\<open>JSON.parse\<close>. A number is held by its string form
  \<^verbatim>\<open>String(n)\<close> (which tells two doubles apart, the sign of zero excepted); an object is
  the list of the members of its text, in order (\<^verbatim>\<open>JSON.parse\<close> makes one property of
  the members of one name).
\<close>

datatype jsval =
    Undefined
  | Null
  | Bool bool
  | Num string
  | Str string
  | Arr "jsval list"
  | Obj "(string \<times> jsval) list"

datatype error =
    TypeError
  | IllegalArguments

text \<open>\<^verbatim>\<open>ToBoolean\<close>: the values JavaScript takes for true in \<^verbatim>\<open>!x\<close>, \<^verbatim>\<open>x || y\<close> and \<^verbatim>\<open>if (x)\<close>.\<close>

fun truthy :: "jsval \<Rightarrow> bool" where
  "truthy Undefined = False"
| "truthy Null = False"
| "truthy (Bool b) = b"
| "truthy (Num n) = (n \<noteq> ''0'' \<and> n \<noteq> ''NaN'')"
| "truthy (Str s) = (s \<noteq> [])"
| "truthy (Arr xs) = True"
| "truthy (Obj ps) = True"

definition js_not :: "jsval \<Rightarrow> bool" where
  "js_not v = (\<not> truthy v)"

text \<open>
  Reading the property \<open>k\<close> of a value, for a name that no built-in prototype defines
  (the handlers read \<^verbatim>\<open>username\<close> and \<^verbatim>\<open>password\<close>): an object answers with its own
  property, where \<^verbatim>\<open>JSON.parse\<close> kept the last of several members of one name; a string,
  number, boolean or array has no such property.
\<close>

fun get_prop :: "jsval \<Rightarrow> string \<Rightarrow> jsval" where
  "get_prop (Obj ps) k = (case map_of (rev ps) k of Some v \<Rightarrow> v | None \<Rightarrow> Undefined)"
| "get_prop v k = Undefined"

text \<open>
  \<^verbatim>\<open>const { username, password } = b\<close>: destructuring \<^verbatim>\<open>undefined\<close> or \<^verbatim>\<open>null\<close> throws a
  TypeError, every other value is read property by property.
\<close>

fun destructure :: "jsval \<Rightarrow> error + (jsval \<times> jsval)" where
  "destructure Undefined = Inl TypeError"
| "destructure Null = Inl TypeError"
| "destructure b = Inr (get_prop b ''username'', get_prop b ''password'')"

text \<open>\<^verbatim>\<open>a || b\<close>.\<close>

definition js_or :: "jsval \<Rightarrow> jsval \<Rightarrow> jsval" where
  "js_or a b = (if truthy a then a else b)"

text \<open>
  \<^verbatim>\<open>users[username]\<close> turns the subscript into a property key (\<^verbatim>\<open>ToPropertyKey\<close>). A
  string is its own key. An array is joined with commas, \<^verbatim>\<open>null\<close> elements giving the
  empty string. An object built by \<^verbatim>\<open>JSON.parse\<close> gives \<^verbatim>\<open>[object Object]\<close>, unless it has
  an own property \<^verbatim>\<open>toString\<close>: that property is not callable, the inherited
  \<^verbatim>\<open>valueOf\<close> returns the object itself, and the conversion throws a TypeError.
\<close>

fun join :: "(error + string) list \<Rightarrow> error + string" where
  "join [] = Inr []"
| "join [x] = x"
| "join (x # y # ys) =
     (case x of
        Inl e \<Rightarrow> Inl e
      | Inr s \<Rightarrow> (case join (y # ys) of Inl e \<Rightarrow> Inl e | Inr t \<Rightarrow> Inr (s @ '','' @ t)))"

fun ToPropertyKey :: "jsval \<Rightarrow> error + string" where
  "ToPropertyKey Undefined = Inr ''undefined''"
| "ToPropertyKey Null = Inr ''null''"
| "ToPropertyKey (Bool b) = Inr (if b then ''true'' else ''false'')"
| "ToPropertyKey (Num n) = Inr n"
| "ToPropertyKey (Str s) = Inr s"
| "ToPropertyKey (Arr xs) =
     join (map (\<lambda>x. if x = Null \<or> x = Undefined then Inr [] else ToPropertyKey x) xs)"
| "ToPropertyKey (Obj ps) =
     (if ''toString'' \<in> fst ` set ps then Inl TypeError else Inr ''[object Object]'')"

section \<open>The persisted documents\<close>

text \<open>
  \<^verbatim>\<open>users.json\<close> holds one object, a credential record under each username;
  \<^verbatim>\<open>loginLogs.json\<close> holds one array of attempt entries. The model keeps each file as
  the value \<^verbatim>\<open>JSON.parse\<close> reads from it. A handler writes a file with
  \<^verbatim>\<open>JSON.stringify\<close>, so what the file holds afterwards is what \<^verbatim>\<open>JSON.parse\<close> reads
  back from that text, and this is not always the value in memory.
\<close>

text \<open>
  The own properties of the object \<^verbatim>\<open>JSON.parse\<close> builds from a list of members: a name
  stands where it came first and holds the value that came last. Its properties are
  enumerated array indices first (the canonical decimal strings up to \<open>2\<^sup>3\<^sup>2 - 2\<close>), in
  ascending order, then the other names in the order of creation.
\<close>

definition digit :: "char \<Rightarrow> bool" where
  "digit c = (c \<in> set ''0123456789'')"

definition decimal :: "string \<Rightarrow> int" where
  "decimal k = foldl (\<lambda>n c. 10 * n + (of_char c - 48)) 0 k"

definition array_index :: "string \<Rightarrow> int option" where
  "array_index k =
     (if k = ''0'' then Some 0
      else if k \<noteq> [] \<and> list_all digit k \<and> hd k \<noteq> CHR ''0'' \<and> decimal k \<le> 4294967294
      then Some (decimal k) else None)"

definition own_properties :: "(string \<times> 'a) list \<Rightarrow> (string \<times> 'a) list" where
  "own_properties ps =
     concat (map (\<lambda>k. case map_of (rev ps) k of Some v \<Rightarrow> [(k, v)] | None \<Rightarrow> [])
                 (rev (remdups (rev (map fst ps)))))"

definition property_order :: "(string \<times> 'a) list \<Rightarrow> (string \<times> 'a) list" where
  "property_order ps =
     sort_key (\<lambda>p. case array_index (fst p) of Some n \<Rightarrow> n | None \<Rightarrow> 0)
       (filter (\<lambda>p. array_index (fst p) \<noteq> None) ps)
     @ filter (\<lambda>p. array_index (fst p) = None) ps"

text \<open>
  \<open>written v\<close> is the value \<^verbatim>\<open>JSON.parse\<close> reads back from \<^verbatim>\<open>JSON.stringify(v)\<close>. A
  number that is not finite (\<^verbatim>\<open>1e400\<close> is parsed as \<^verbatim>\<open>Infinity\<close>) is written as
  \<^verbatim>\<open>null\<close>; a string, a boolean and \<^verbatim>\<open>null\<close> are written as they are; an array is written
  element by element, \<^verbatim>\<open>undefined\<close> as \<^verbatim>\<open>null\<close>; an object is written property by
  property, in the order of enumeration, without the properties that are
  \<^verbatim>\<open>undefined\<close>. A property whose value is \<^verbatim>\<open>undefined\<close> is left out, so it reads back
  as \<^verbatim>\<open>undefined\<close>.
\<close>

definition written_number :: "string \<Rightarrow> jsval" where
  "written_number n = (if n \<in> set [''Infinity'', ''-Infinity'', ''NaN''] then Null else Num n)"

function written :: "jsval \<Rightarrow> jsval" where
  "written Undefined = Undefined"
| "written Null = Null"
| "written (Bool b) = Bool b"
| "written (Num n) = written_number n"
| "written (Str s) = Str s"
| "written (Arr xs) = Arr (map (\<lambda>x. if x = Undefined then Null else written x) xs)"
| "written (Obj ps) =
     Obj (property_order (own_properties
       (map (\<lambda>p. (fst p, written (snd p))) (filter (\<lambda>p. snd p \<noteq> Undefined) ps))))"
  by pat_completeness auto
termination
proof (relation "measure size")
  show "wf (measure size)" by simp
next
  fix xs :: "jsval list" and x
  assume "x \<in> set xs"
  then have "size x < Suc (size_list size xs)"
    by (induction xs) auto
  then show "(x, Arr xs) \<in> measure size" by simp
next
  fix ps :: "(string \<times> jsval) list" and p
  assume "p \<in> set (filter (\<lambda>p. snd p \<noteq> Undefined) ps)"
  then have "p \<in> set ps" by simp
  then have "size (snd p) < Suc (size_list (size_prod (\<lambda>_. 0) size) ps)"
    by (induction ps) auto
  then show "(snd p, Obj ps) \<in> measure size" by simp
qed

record credential =
  passwordHash :: string
  createdAt :: string

record logEntry =
  username :: jsval
  date :: string
  success :: bool

text \<open>
  An entry as \<^verbatim>\<open>JSON.stringify\<close> writes it: the date is a string and the success flag a
  boolean, written as they are. The entries read from the file were written this way
  before, and are written again as they are (\<open>written_idem\<close>).
\<close>

definition written_entry :: "logEntry \<Rightarrow> logEntry" where
  "written_entry e = e\<lparr>username := written (username e)\<rparr>"

record files =
  usersFile :: "string \<rightharpoonup> credential"
  logFile :: "logEntry list"

datatype path = UsersFile | LogFile

datatype fs_op = ReadFileSync path | WriteFileSync path

text \<open>
  The object read from \<^verbatim>\<open>users.json\<close> inherits from \<^verbatim>\<open>Object.prototype\<close>, so
  \<^verbatim>\<open>users[k]\<close> is the own property \<open>k\<close> when there is one, a member of
  \<^verbatim>\<open>Object.prototype\<close> when \<open>k\<close> names one, and \<^verbatim>\<open>undefined\<close> otherwise.
\<close>

definition object_prototype_names :: "string list" where
  "object_prototype_names =
     [''constructor'', ''__defineGetter__'', ''__defineSetter__'', ''hasOwnProperty'',
      ''__lookupGetter__'', ''__lookupSetter__'', ''isPrototypeOf'', ''propertyIsEnumerable'',
      ''toString'', ''valueOf'', ''__proto__'', ''toLocaleString'']"

datatype member = Missing | Own credential | Inherited

definition lookup :: "(string \<rightharpoonup> credential) \<Rightarrow> string \<Rightarrow> member" where
  "lookup users k =
     (case users k of
        Some r \<Rightarrow> Own r
      | None \<Rightarrow> if k \<in> set object_prototype_names then Inherited else Missing)"

text \<open>
  A record is an object and a member of \<^verbatim>\<open>Object.prototype\<close> is a function or an object:
  both are true in a condition. Only a record has a \<^verbatim>\<open>passwordHash\<close>.
\<close>

fun present :: "member \<Rightarrow> bool" where
  "present Missing = False"
| "present (Own r) = True"
| "present Inherited = True"

fun passwordHash_of :: "member \<Rightarrow> string option" where
  "passwordHash_of (Own r) = Some (passwordHash r)"
| "passwordHash_of m = None"

section \<open>The libraries\<close>

text \<open>
  \<^verbatim>\<open>bcryptjs\<close> and \<^verbatim>\<open>Date\<close> are parameters of the model: the hash of a password under
  a salt, the comparison of a password with a hash, and the two renderings of a time.
  \<^verbatim>\<open>hashSync\<close> and \<^verbatim>\<open>compareSync\<close> throw \<^verbatim>\<open>Illegal arguments\<close> unless both arguments are
  strings.
\<close>

record runtime =
  hashSync :: "string \<Rightarrow> string \<Rightarrow> string"
  compareSync :: "string \<Rightarrow> string \<Rightarrow> bool"
  toISOString :: "nat \<Rightarrow> string"
  toLocaleString :: "nat \<Rightarrow> string"

fun bcrypt_hashSync :: "runtime \<Rightarrow> jsval \<Rightarrow> string \<Rightarrow> error + string" where
  "bcrypt_hashSync rt (Str s) salt = Inr (hashSync rt s salt)"
| "bcrypt_hashSync rt v salt = Inl IllegalArguments"

fun bcrypt_compareSync :: "runtime \<Rightarrow> jsval \<Rightarrow> string option \<Rightarrow> error + bool" where
  "bcrypt_compareSync rt (Str s) (Some hash) = Inr (compareSync rt s hash)"
| "bcrypt_compareSync rt v h = Inl IllegalArguments"

text \<open>What \<^verbatim>\<open>compareSync\<close> owes \<^verbatim>\<open>hashSync\<close>: a password matches its own hash.\<close>

definition bcrypt_sound :: "runtime \<Rightarrow> bool" where
  "bcrypt_sound rt = (\<forall>s salt. compareSync rt s (hashSync rt s salt))"

section \<open>The handlers\<close>

text \<open>
  A request carries its body, the time \<^verbatim>\<open>new Date()\<close> gives while it is served and the
  salt \<^verbatim>\<open>bcrypt.genSaltSync(10)\<close> draws for it. A handler answers with a status and
  a JSON body \<^verbatim>\<open>{ success, message }\<close> (\<^verbatim>\<open>res.json\<close> alone answers with status 200), or
  throws. The result also lists the file operations the handler made, in order.
\<close>

record request =
  body :: jsval
  now :: nat
  genSaltSync :: string

datatype response = Json (status: nat) (ok: bool) (message: string)

datatype outcome = Sent response | Threw error

type_synonym result = "outcome \<times> files \<times> fs_op list"

text \<open>
  \<^verbatim>\<open>
  app.post('/api/signup', (req, res) => {
    const { username, password } = req.body || {};
    if (!username || !password) return res.status(400).json({ success: false, message: 'Username and password are required' });

    const users = JSON.parse(fs.readFileSync(usersFile));
    if (users[username]) {
      return res.status(409).json({ success: false, message: 'Username already exists' });
    }

    const salt = bcrypt.genSaltSync(10);
    const passwordHash = bcrypt.hashSync(password, salt);

    users[username] = { passwordHash, createdAt: new Date().toISOString() };
    fs.writeFileSync(usersFile, JSON.stringify(users, null, 2));

    res.json({ success: true, message: 'Signup successful' });
  });
  \<close>
  The assignment \<^verbatim>\<open>users[username] = ...\<close> is reached only when \<^verbatim>\<open>users[username]\<close> was
  not true in the condition, so the key is neither an own property nor a name of
  \<^verbatim>\<open>Object.prototype\<close>, and the assignment adds an own property.
\<close>

definition signup :: "runtime \<Rightarrow> request \<Rightarrow> files \<Rightarrow> result" where
  "signup rt req fs =
     (case destructure (js_or (body req) (Obj [])) of
        Inl e \<Rightarrow> (Threw e, fs, [])
      | Inr (uname, password) \<Rightarrow>
          if js_not uname \<or> js_not password then
            (Sent (Json 400 False ''Username and password are required''), fs, [])
          else
            (case ToPropertyKey uname of
               Inl e \<Rightarrow> (Threw e, fs, [ReadFileSync UsersFile])
             | Inr k \<Rightarrow>
                 if present (lookup (usersFile fs) k) then
                   (Sent (Json 409 False ''Username already exists''), fs,
                    [ReadFileSync UsersFile])
                 else
                   (case bcrypt_hashSync rt password (genSaltSync req) of
                      Inl e \<Rightarrow> (Threw e, fs, [ReadFileSync UsersFile])
                    | Inr hash \<Rightarrow>
                        (Sent (Json 200 True ''Signup successful''),
                         fs\<lparr>usersFile := (usersFile fs)
                              (k \<mapsto> \<lparr>passwordHash = hash,
                                     createdAt = toISOString rt (now req)\<rparr>)\<rparr>,
                         [ReadFileSync UsersFile, WriteFileSync UsersFile]))))"

text \<open>
  \<^verbatim>\<open>
  app.post('/api/login', (req, res) => {
    const { username, password } = req.body || {};
    if (!username || !password) return res.status(400).json({ success: false, message: 'Username and password are required' });

    const users = JSON.parse(fs.readFileSync(usersFile));
    const user = users[username];
    if (!user) {
      return res.status(401).json({ success: false, message: 'Invalid username or password' });
    }

    const isValid = bcrypt.compareSync(password, user.passwordHash);
    const logEntry = {
      username,
      date: new Date().toLocaleString(),
      success: !!isValid
    };
    const logs = JSON.parse(fs.readFileSync(logFile));
    logs.push(logEntry);
    fs.writeFileSync(logFile, JSON.stringify(logs, null, 2));

    if (!isValid) return res.status(401).json({ success: false, message: 'Invalid username or password' });

    res.json({ success: true, message: 'Login successful' });
  });
  \<close>
\<close>

definition login :: "runtime \<Rightarrow> request \<Rightarrow> files \<Rightarrow> result" where
  "login rt req fs =
     (case destructure (js_or (body req) (Obj [])) of
        Inl e \<Rightarrow> (Threw e, fs, [])
      | Inr (uname, password) \<Rightarrow>
          if js_not uname \<or> js_not password then
            (Sent (Json 400 False ''Username and password are required''), fs, [])
          else
            (case ToPropertyKey uname of
               Inl e \<Rightarrow> (Threw e, fs, [ReadFileSync UsersFile])
             | Inr k \<Rightarrow>
                 let user = lookup (usersFile fs) k in
                 if \<not> present user then
                   (Sent (Json 401 False ''Invalid username or password''), fs,
                    [ReadFileSync UsersFile])
                 else
                   (case bcrypt_compareSync rt password (passwordHash_of user) of
                      Inl e \<Rightarrow> (Threw e, fs, [ReadFileSync UsersFile])
                    | Inr isValid \<Rightarrow>
                        let entry = \<lparr>username = uname,
                                     date = toLocaleString rt (now req),
                                     success = isValid\<rparr>;
                            fs' = fs\<lparr>logFile := logFile fs @ [written_entry entry]\<rparr>;
                            ops = [ReadFileSync UsersFile, ReadFileSync LogFile,
                                   WriteFileSync LogFile]
                        in if \<not> isValid then
                             (Sent (Json 401 False ''Invalid username or password''), fs', ops)
                           else
                             (Sent (Json 200 True ''Login successful''), fs', ops))))"

text \<open>The three parts of a handler's result, and the two values a handler binds
  from the request (\<^verbatim>\<open>const { username, password } = req.body || {}\<close>).\<close>

definition outcome_of :: "result \<Rightarrow> outcome" where
  "outcome_of r = fst r"

definition files_of :: "result \<Rightarrow> files" where
  "files_of r = fst (snd r)"

definition ops_of :: "result \<Rightarrow> fs_op list" where
  "ops_of r = snd (snd r)"

definition req_username :: "request \<Rightarrow> jsval" where
  "req_username req = get_prop (js_or (body req) (Obj [])) ''username''"

definition req_password :: "request \<Rightarrow> jsval" where
  "req_password req = get_prop (js_or (body req) (Obj [])) ''password''"

text \<open>
  The handlers are synchronous, so the server handles one request after the other; a
  handler that throws leaves the files as they were at the throw and the server goes on
  with the next request.
\<close>

datatype call = Signup request | Login request

fun handle :: "runtime \<Rightarrow> call \<Rightarrow> files \<Rightarrow> result" where
  "handle rt (Signup req) fs = signup rt req fs"
| "handle rt (Login req) fs = login rt req fs"

fun serve :: "runtime \<Rightarrow> call list \<Rightarrow> files \<Rightarrow> files" where
  "serve rt [] fs = fs"
| "serve rt (c # cs) fs = serve rt cs (files_of (handle rt c fs))"

text \<open>The results of the calls of a sequence, in order.\<close>

fun results :: "runtime \<Rightarrow> call list \<Rightarrow> files \<Rightarrow> result list" where
  "results rt [] fs = []"
| "results rt (c # cs) fs = handle rt c fs # results rt cs (files_of (handle rt c fs))"

section \<open>The client-side login form\<close>

text \<open>
  \<^verbatim>\<open>
  const submit = async (e) => {
    e.preventDefault();
    setError('');
    setLoading(true);
    try {
      // Client-only success; no backend call
      await new Promise((r) => setTimeout(r, 300));
      onSuccess({ username });
    } catch (err) {
      setError(err.message || 'Server error');
    } finally {
      setLoading(false);
    }
  };
  \<close>
  The form's state is the two typed fields, \<^verbatim>\<open>loading\<close> and \<^verbatim>\<open>error\<close>. The handler's
  effects outside the component state are listed in order; \<open>Fetch\<close> stands for a network
  call. \<open>onSuccess\<close> is the parent's callback: it changes the parent's state, or throws
  an error with a message.
\<close>

record loginForm =
  username_input :: string
  password_input :: string
  loading :: bool
  error_message :: string

datatype effect = PreventDefault | SetTimeout nat | Fetch string

definition LoginForm_submit ::
  "(jsval \<Rightarrow> 'p \<Rightarrow> string + 'p) \<Rightarrow> loginForm \<Rightarrow> 'p \<Rightarrow> effect list \<times> loginForm \<times> 'p" where
  "LoginForm_submit onSuccess f parent =
     (let f1 = f\<lparr>error_message := []\<rparr>;
          f2 = f1\<lparr>loading := True\<rparr>;
          effects = [PreventDefault, SetTimeout 300]
      in case onSuccess (Obj [(''username'', Str (username_input f))]) parent of
           Inr parent' \<Rightarrow> (effects, f2\<lparr>loading := False\<rparr>, parent')
         | Inl msg \<Rightarrow>
             (effects,
              f2\<lparr>error_message := (if msg \<noteq> [] then msg else ''Server error''),
                 loading := False\<rparr>,
              parent))"

text \<open>
  \<^verbatim>\<open>
  const [view, setView] = useState('login'); // login | signup | dashboard
  const [user, setUser] = useState(null);

  const handleAuthSuccess = (u) => {
    setUser(u);
    setView('dashboard');
  };
  \<close>
  \<^verbatim>\<open>App\<close> passes \<^verbatim>\<open>handleAuthSuccess\<close> to the login form as \<^verbatim>\<open>onSuccess\<close> and renders the
  component its \<^verbatim>\<open>view\<close> names.
\<close>

record app =
  view :: string
  user :: jsval

datatype component = LoginForm | SignupForm | Dashboard jsval

definition handleAuthSuccess :: "jsval \<Rightarrow> app \<Rightarrow> string + app" where
  "handleAuthSuccess u a = Inr (a\<lparr>user := u, view := ''dashboard''\<rparr>)"

definition App_render :: "app \<Rightarrow> component list" where
  "App_render a =
     (if view a = ''login'' then [LoginForm] else []) @
     (if view a = ''signup'' then [SignupForm] else []) @
     (if view a = ''dashboard'' then [Dashboard (user a)] else [])"

section \<open>An instance for examples\<close>

text \<open>
  A runtime on which the handlers can be evaluated: its hash is the salt followed by the
  password, its comparison looks for the password at the end of the hash, and a time is
  rendered in unary. It meets \<open>bcrypt_sound\<close>.
\<close>

definition example_runtime :: runtime where
  "example_runtime =
     \<lparr>hashSync = (\<lambda>s salt. salt @ s),
      compareSync = (\<lambda>s hash. length s \<le> length hash \<and> drop (length hash - length s) hash = s),
      toISOString = (\<lambda>t. replicate t CHR ''I''),
      toLocaleString = (\<lambda>t. replicate t CHR ''L'')\<rparr>"

definition post :: "jsval \<Rightarrow> nat \<Rightarrow> request" where
  "post b t = \<lparr>body = b, now = t, genSaltSync = ''salt''\<rparr>"

definition credentials :: "string \<Rightarrow> string \<Rightarrow> jsval" where
  "credentials u p = Obj [(''username'', Str u), (''password'', Str p)]"

definition no_files :: files where
  "no_files = \<lparr>usersFile = Map.empty, logFile = []\<rparr>"

definition alice_record :: credential where
  "alice_record = \<lparr>passwordHash = ''saltsecret1'', createdAt = ''I''\<rparr>"

definition alice_files :: files where
  "alice_files = \<lparr>usersFile = [''alice'' \<mapsto> alice_record], logFile = []\<rparr>"

section \<open>What \<^verbatim>\<open>JSON.stringify\<close> writes\<close>

text \<open>
  Writing a value that was read from a written file gives the same value again: the
  entries a handler reads from the log are written back as they are.
\<close>

lemma written_Undefined: "written v = Undefined \<longleftrightarrow> v = Undefined"
  by (cases v) (simp_all add: written_number_def)

lemma own_properties_set: "set (own_properties ps) \<subseteq> set ps"
proof
  fix p assume "p \<in> set (own_properties ps)"
  then obtain k where "p \<in> set (case map_of (rev ps) k of Some v \<Rightarrow> [(k, v)] | None \<Rightarrow> [])"
    by (auto simp add: own_properties_def)
  then have "map_of (rev ps) (fst p) = Some (snd p)"
    by (cases "map_of (rev ps) k") auto
  then have "(fst p, snd p) \<in> set (rev ps)"
    by (rule map_of_SomeD)
  then show "p \<in> set ps" by simp
qed

lemma own_properties_keys: "map fst (own_properties ps) = rev (remdups (rev (map fst ps)))"
proof -
  have known: "\<exists>v. map_of (rev ps) k = Some v" if "k \<in> fst ` set ps" for k
  proof -
    from that have "k \<in> fst ` set (rev ps)" by simp
    then have "map_of (rev ps) k \<noteq> None" by (simp only: map_of_eq_None_iff not_not)
    then show ?thesis by blast
  qed
  have "map fst (concat (map (\<lambda>k. case map_of (rev ps) k of Some v \<Rightarrow> [(k, v)] | None \<Rightarrow> []) ks)) = ks"
    if "set ks \<subseteq> fst ` set ps" for ks
    using that
  proof (induction ks)
    case Nil
    then show ?case by simp
  next
    case (Cons k ks)
    from Cons.prems known [of k] obtain v where "map_of (rev ps) k = Some v" by auto
    with Cons show ?case by simp
  qed
  then show ?thesis by (simp add: own_properties_def)
qed

lemma own_properties_distinct: "distinct (map fst (own_properties ps))"
  by (simp add: own_properties_keys)

lemma own_properties_id:
  assumes "distinct (map fst ps)"
  shows "own_properties ps = ps"
proof -
  have keys: "rev (remdups (rev (map fst ps))) = map fst ps"
    using assms by (simp add: distinct_remdups_id)
  have val: "map_of (rev ps) (fst p) = Some (snd p)" if "p \<in> set ps" for p
  proof -
    have "distinct (map fst (rev ps))" using assms by (simp add: rev_map [symmetric])
    moreover have "(fst p, snd p) \<in> set (rev ps)" using that by simp
    ultimately show ?thesis by (rule map_of_is_SomeI)
  qed
  have "concat (map (\<lambda>k. case map_of (rev ps) k of Some v \<Rightarrow> [(k, v)] | None \<Rightarrow> []) (map fst qs)) = qs"
    if "set qs \<subseteq> set ps" for qs
    using that by (induction qs) (simp_all add: val)
  then show ?thesis by (simp add: own_properties_def keys)
qed

lemma property_order_set: "set (property_order ps) = set ps"
  by (auto simp add: property_order_def)

lemma property_order_distinct:
  assumes "distinct (map fst ps)"
  shows "distinct (map fst (property_order ps))"
proof -
  let ?f = "\<lambda>p::string \<times> 'a. case array_index (fst p) of Some n \<Rightarrow> n | None \<Rightarrow> 0"
  let ?I = "filter (\<lambda>p. array_index (fst p) \<noteq> None) ps"
  let ?N = "filter (\<lambda>p. array_index (fst p) = None) ps"
  have "distinct (map fst ?I)" "distinct (map fst ?N)"
    using assms by (simp_all add: distinct_map_filter)
  then have "distinct (map fst (sort_key ?f ?I))" "distinct (map fst ?N)"
    by (simp_all add: distinct_map)
  then show ?thesis
    by (auto simp add: property_order_def)
qed

lemma property_order_idem: "property_order (property_order ps) = property_order ps"
proof -
  let ?f = "\<lambda>p::string \<times> 'a. case array_index (fst p) of Some n \<Rightarrow> n | None \<Rightarrow> 0"
  let ?I = "filter (\<lambda>p. array_index (fst p) \<noteq> None) ps"
  let ?N = "filter (\<lambda>p. array_index (fst p) = None) ps"
  have a: "filter (\<lambda>p. array_index (fst p) \<noteq> None) (sort_key ?f ?I) = sort_key ?f ?I"
    by (auto simp add: filter_id_conv)
  have b: "filter (\<lambda>p. array_index (fst p) \<noteq> None) ?N = []"
    by (auto simp add: filter_empty_conv)
  have c: "filter (\<lambda>p. array_index (fst p) = None) (sort_key ?f ?I) = []"
    by (auto simp add: filter_empty_conv)
  have d: "filter (\<lambda>p. array_index (fst p) = None) ?N = ?N"
    by (auto simp add: filter_id_conv)
  have e: "sort_key ?f (sort_key ?f ?I) = sort_key ?f ?I"
    by (rule sort_key_id_if_sorted) simp
  show ?thesis
    unfolding property_order_def filter_append a b c d append_Nil2 append_Nil e
    by (rule refl)
qed

lemma written_idem: "written (written v) = written v"
proof (induction v rule: written.induct)
  case (4 n)
  then show ?case by (simp add: written_number_def)
next
  case (6 xs)
  have "(if written x = Undefined then Null else written (written x)) = written x"
    if "x \<in> set xs" "x \<noteq> Undefined" for x
    using that 6 by (simp add: written_Undefined)
  then show ?case by simp
next
  case (7 ps)
  let ?W = "\<lambda>p::string \<times> jsval. (fst p, written (snd p))"
  let ?R = "map ?W (filter (\<lambda>p. snd p \<noteq> Undefined) ps)"
  let ?Q = "property_order (own_properties ?R)"
  have sub: "set ?Q \<subseteq> set ?R"
    using own_properties_set [of ?R] by (simp add: property_order_set)
  have keep: "filter (\<lambda>p. snd p \<noteq> Undefined) ?Q = ?Q"
    using sub by (auto simp add: filter_id_conv written_Undefined)
  have same: "map ?W ?Q = ?Q"
  proof (rule map_idI)
    fix q assume "q \<in> set ?Q"
    with sub obtain p where p: "p \<in> set (filter (\<lambda>p. snd p \<noteq> Undefined) ps)" and q: "q = ?W p"
      by auto
    from 7 [OF p] show "?W q = q" by (simp add: q)
  qed
  have "distinct (map fst ?Q)"
    by (rule property_order_distinct) (rule own_properties_distinct)
  then have "own_properties ?Q = ?Q"
    by (rule own_properties_id)
  then show ?case
    by (simp add: keep same property_order_idem)
qed simp_all

lemma written_examples:
  "written (Num ''Infinity'') = Null"
  "written (Arr [Str ''alice'', Undefined, Num ''-Infinity'']) = Arr [Str ''alice'', Null, Null]"
  "written (Obj [(''b'', Num ''1''), (''10'', Null), (''9'', Undefined), (''2'', Bool True),
                 (''b'', Str ''x'')]) =
     Obj [(''2'', Bool True), (''10'', Null), (''b'', Str ''x'')]"
  by (simp_all add: written_number_def own_properties_def property_order_def array_index_def
      digit_def decimal_def)

lemma written_entry_idem: "written_entry (written_entry e) = written_entry e"
  by (simp add: written_entry_def written_idem)

section \<open>The handlers, step by step\<close>

lemma destructure_guarded:
  "destructure (js_or b (Obj [])) =
     Inr (get_prop (js_or b (Obj [])) ''username'', get_prop (js_or b (Obj [])) ''password'')"
  by (cases b) (simp_all add: js_or_def)

lemma get_prop_not_object: "\<forall>ps. b \<noteq> Obj ps \<Longrightarrow> get_prop (js_or b (Obj [])) k = Undefined"
  by (cases b) (simp_all add: js_or_def)

lemma absent_not_present: "\<not> present (lookup m k) \<Longrightarrow> m k = None"
  by (cases "m k") (simp_all add: lookup_def)

lemma signup_unfold:
  "signup rt req fs =
     (if js_not (req_username req) \<or> js_not (req_password req) then
        (Sent (Json 400 False ''Username and password are required''), fs, [])
      else
        (case ToPropertyKey (req_username req) of
           Inl e \<Rightarrow> (Threw e, fs, [ReadFileSync UsersFile])
         | Inr k \<Rightarrow>
             if present (lookup (usersFile fs) k) then
               (Sent (Json 409 False ''Username already exists''), fs, [ReadFileSync UsersFile])
             else
               (case bcrypt_hashSync rt (req_password req) (genSaltSync req) of
                  Inl e \<Rightarrow> (Threw e, fs, [ReadFileSync UsersFile])
                | Inr hash \<Rightarrow>
                    (Sent (Json 200 True ''Signup successful''),
                     fs\<lparr>usersFile := (usersFile fs)
                          (k \<mapsto> \<lparr>passwordHash = hash,
                                 createdAt = toISOString rt (now req)\<rparr>)\<rparr>,
                     [ReadFileSync UsersFile, WriteFileSync UsersFile]))))"
  unfolding signup_def req_username_def req_password_def
  by (simp add: destructure_guarded)

lemma login_unfold:
  "login rt req fs =
     (if js_not (req_username req) \<or> js_not (req_password req) then
        (Sent (Json 400 False ''Username and password are required''), fs, [])
      else
        (case ToPropertyKey (req_username req) of
           Inl e \<Rightarrow> (Threw e, fs, [ReadFileSync UsersFile])
         | Inr k \<Rightarrow>
             if \<not> present (lookup (usersFile fs) k) then
               (Sent (Json 401 False ''Invalid username or password''), fs,
                [ReadFileSync UsersFile])
             else
               (case bcrypt_compareSync rt (req_password req)
                       (passwordHash_of (lookup (usersFile fs) k)) of
                  Inl e \<Rightarrow> (Threw e, fs, [ReadFileSync UsersFile])
                | Inr isValid \<Rightarrow>
                    (Sent (if isValid then Json 200 True ''Login successful''
                           else Json 401 False ''Invalid username or password''),
                     fs\<lparr>logFile := logFile fs @
                        [\<lparr>username = written (req_username req),
                          date = toLocaleString rt (now req), success = isValid\<rparr>]\<rparr>,
                     [ReadFileSync UsersFile, ReadFileSync LogFile, WriteFileSync LogFile]))))"
  unfolding login_def req_username_def req_password_def
  by (simp add: destructure_guarded written_entry_def Let_def split: sum.splits)

text \<open>The handlers on a request whose username and password are non-empty strings.\<close>

lemma signup_string:
  assumes "req_username req = Str u" "u \<noteq> []" "req_password req = Str p" "p \<noteq> []"
  shows "signup rt req fs =
     (if present (lookup (usersFile fs) u) then
        (Sent (Json 409 False ''Username already exists''), fs, [ReadFileSync UsersFile])
      else
        (Sent (Json 200 True ''Signup successful''),
         fs\<lparr>usersFile := (usersFile fs)
              (u \<mapsto> \<lparr>passwordHash = hashSync rt p (genSaltSync req),
                     createdAt = toISOString rt (now req)\<rparr>)\<rparr>,
         [ReadFileSync UsersFile, WriteFileSync UsersFile]))"
  using assms by (simp add: signup_unfold js_not_def)

lemma login_string:
  assumes "req_username req = Str u" "u \<noteq> []" "req_password req = Str p" "p \<noteq> []"
  shows "login rt req fs =
     (case lookup (usersFile fs) u of
        Missing \<Rightarrow>
          (Sent (Json 401 False ''Invalid username or password''), fs, [ReadFileSync UsersFile])
      | Inherited \<Rightarrow> (Threw IllegalArguments, fs, [ReadFileSync UsersFile])
      | Own r \<Rightarrow>
          (Sent (if compareSync rt p (passwordHash r) then Json 200 True ''Login successful''
                 else Json 401 False ''Invalid username or password''),
           fs\<lparr>logFile := logFile fs @
                [\<lparr>username = Str u, date = toLocaleString rt (now req),
                  success = compareSync rt p (passwordHash r)\<rparr>]\<rparr>,
           [ReadFileSync UsersFile, ReadFileSync LogFile, WriteFileSync LogFile]))"
  using assms by (simp add: login_unfold js_not_def split: member.splits)

text \<open>The example runtime and the example requests.\<close>

lemma example_runtime_simps:
  "hashSync example_runtime s salt = salt @ s"
  "compareSync example_runtime s hash =
     (length s \<le> length hash \<and> drop (length hash - length s) hash = s)"
  "toISOString example_runtime t = replicate t CHR ''I''"
  "toLocaleString example_runtime t = replicate t CHR ''L''"
  by (simp_all add: example_runtime_def)

lemma example_runtime_sound: "bcrypt_sound example_runtime"
  by (simp add: bcrypt_sound_def example_runtime_def)

lemma post_simps:
  "req_username (post (credentials u p) t) = Str u"
  "req_password (post (credentials u p) t) = Str p"
  "now (post b t) = t"
  "genSaltSync (post b t) = ''salt''"
  "body (post b t) = b"
  by (simp_all add: req_username_def req_password_def post_def credentials_def js_or_def)

lemma example_files:
  "usersFile no_files = Map.empty"
  "logFile no_files = []"
  "usersFile alice_files = [''alice'' \<mapsto> alice_record]"
  "logFile alice_files = []"
  by (simp_all add: no_files_def alice_files_def)

lemma signup_post:
  assumes "u \<noteq> []" "p \<noteq> []"
  shows "signup rt (post (credentials u p) t) fs =
     (if present (lookup (usersFile fs) u) then
        (Sent (Json 409 False ''Username already exists''), fs, [ReadFileSync UsersFile])
      else
        (Sent (Json 200 True ''Signup successful''),
         fs\<lparr>usersFile := (usersFile fs)
              (u \<mapsto> \<lparr>passwordHash = hashSync rt p ''salt'', createdAt = toISOString rt t\<rparr>)\<rparr>,
         [ReadFileSync UsersFile, WriteFileSync UsersFile]))"
  using signup_string [OF post_simps(1) assms(1) post_simps(2) assms(2), of rt t fs]
  by (simp add: post_simps)

lemma login_post:
  assumes "u \<noteq> []" "p \<noteq> []"
  shows "login rt (post (credentials u p) t) fs =
     (case lookup (usersFile fs) u of
        Missing \<Rightarrow>
          (Sent (Json 401 False ''Invalid username or password''), fs, [ReadFileSync UsersFile])
      | Inherited \<Rightarrow> (Threw IllegalArguments, fs, [ReadFileSync UsersFile])
      | Own r \<Rightarrow>
          (Sent (if compareSync rt p (passwordHash r) then Json 200 True ''Login successful''
                 else Json 401 False ''Invalid username or password''),
           fs\<lparr>logFile := logFile fs @
                [\<lparr>username = Str u, date = toLocaleString rt t,
                  success = compareSync rt p (passwordHash r)\<rparr>]\<rparr>,
           [ReadFileSync UsersFile, ReadFileSync LogFile, WriteFileSync LogFile]))"
  using login_string [OF post_simps(1) assms(1) post_simps(2) assms(2), of rt t fs]
  by (simp add: post_simps split: member.splits)

text \<open>Registering alice on the empty files gives \<open>alice_files\<close>.\<close>

lemma alice_registered:
  "files_of (signup example_runtime (post (credentials ''alice'' ''secret1'') (Suc 0)) no_files) =
     alice_files"
  by (simp add: signup_post lookup_def example_files object_prototype_names_def files_of_def
      example_runtime_simps)
     (simp add: no_files_def alice_files_def alice_record_def)

section \<open>What holds outside the names of \<^verbatim>\<open>Object.prototype\<close>\<close>

text \<open>
  Registering a new username and then authenticating with the same password succeeds,
  for a username that is not a name of \<^verbatim>\<open>Object.prototype\<close> and a library whose
  comparison accepts a password against its own hash.
\<close>

lemma signup_then_login_succeeds:
  assumes "bcrypt_sound rt"
    and "req_username req = Str u" "u \<noteq> []" "req_password req = Str p" "p \<noteq> []"
    and "req_username req' = Str u" "req_password req' = Str p"
    and "usersFile fs u = None" "u \<notin> set object_prototype_names"
  shows "outcome_of (signup rt req fs) = Sent (Json 200 True ''Signup successful'')
       \<and> outcome_of (login rt req' (files_of (signup rt req fs))) =
           Sent (Json 200 True ''Login successful'')"
proof -
  have absent: "\<not> present (lookup (usersFile fs) u)"
    using assms(8,9) by (simp add: lookup_def)
  have s: "signup rt req fs =
        (Sent (Json 200 True ''Signup successful''),
         fs\<lparr>usersFile := (usersFile fs)
              (u \<mapsto> \<lparr>passwordHash = hashSync rt p (genSaltSync req),
                     createdAt = toISOString rt (now req)\<rparr>)\<rparr>,
         [ReadFileSync UsersFile, WriteFileSync UsersFile])"
    using absent by (simp add: signup_string [OF assms(2-5)])
  have m: "compareSync rt p (hashSync rt p (genSaltSync req))"
    using assms(1) by (simp add: bcrypt_sound_def)
  show ?thesis
    using m
    by (simp add: s outcome_of_def files_of_def lookup_def
        login_string [OF assms(6) assms(3) assms(7) assms(5)])
qed

text \<open>
  Registering answers 409 exactly when the username has a record, and then leaves the
  files as they are.
\<close>

lemma signup_conflict_iff:
  assumes "req_username req = Str u" "u \<noteq> []" "req_password req = Str p" "p \<noteq> []"
    and "u \<notin> set object_prototype_names"
  shows "(outcome_of (signup rt req fs) = Sent (Json 409 False ''Username already exists'')) =
           (u \<in> dom (usersFile fs))"
    and "u \<in> dom (usersFile fs) \<Longrightarrow> files_of (signup rt req fs) = fs"
  using assms(5)
  by (auto simp add: signup_string [OF assms(1-4)] outcome_of_def files_of_def lookup_def
      split: option.splits)

text \<open>
  An unknown username and a wrong password for a known one are answered alike.
\<close>

lemma login_unknown_like_wrong_password:
  assumes "req_username req = Str u" "u \<noteq> []" "req_password req = Str p" "p \<noteq> []"
    and "usersFile fs u = None" "u \<notin> set object_prototype_names"
    and "req_username req' = Str u'" "u' \<noteq> []" "req_password req' = Str p'" "p' \<noteq> []"
    and "usersFile fs u' = Some r" "\<not> compareSync rt p' (passwordHash r)"
  shows "outcome_of (login rt req fs) = Sent (Json 401 False ''Invalid username or password'')"
    and "outcome_of (login rt req' fs) = outcome_of (login rt req fs)"
  using assms(5,6,11,12)
  by (simp_all add: login_string [OF assms(1-4)] login_string [OF assms(7-10)]
      outcome_of_def lookup_def)

text \<open>
  An attempt on a username that has a record appends one entry to the end of the log,
  with the username, the time of the call and the outcome.
\<close>

lemma login_known_user_logs_once:
  assumes "req_username req = Str u" "u \<noteq> []" "req_password req = Str p" "p \<noteq> []"
    and "usersFile fs u = Some r"
  shows "logFile (files_of (login rt req fs)) =
           logFile fs @ [\<lparr>username = Str u, date = toLocaleString rt (now req),
                          success = compareSync rt p (passwordHash r)\<rparr>]"
    and "outcome_of (login rt req fs) =
           Sent (if compareSync rt p (passwordHash r) then Json 200 True ''Login successful''
                 else Json 401 False ''Invalid username or password'')"
  using assms(5)
  by (simp_all add: login_string [OF assms(1-4)] outcome_of_def files_of_def lookup_def)

section \<open>What each handler leaves alone\<close>

lemma login_users_unchanged: "usersFile (files_of (login rt req fs)) = usersFile fs"
  by (simp add: login_unfold files_of_def split: sum.splits)

lemma login_no_users_write: "WriteFileSync UsersFile \<notin> set (ops_of (login rt req fs))"
  by (simp add: login_unfold ops_of_def split: sum.splits)

lemma login_log_cases:
  "logFile (files_of (login rt req fs)) = logFile fs
   \<or> logFile (files_of (login rt req fs)) =
       logFile fs @
       [\<lparr>username = written (req_username req), date = toLocaleString rt (now req),
         success = (outcome_of (login rt req fs) = Sent (Json 200 True ''Login successful''))\<rparr>]"
  by (auto simp add: login_unfold files_of_def outcome_of_def split: sum.splits)

text \<open>
  The handler writes the whole array, the entries it read and the new one. When the
  entries it read were written by \<^verbatim>\<open>JSON.stringify\<close> before, this is the log with the
  new entry added as written, which is what \<open>login\<close> appends.
\<close>

lemma login_writes_whole_log:
  assumes "map written_entry (logFile fs) = logFile fs"
  shows "map written_entry (logFile fs @ [e]) = logFile fs @ [written_entry e]"
    and "map written_entry (logFile (files_of (login rt req fs))) =
           logFile (files_of (login rt req fs))"
proof -
  show "map written_entry (logFile fs @ [e]) = logFile fs @ [written_entry e]"
    using assms by simp
  from login_log_cases [of rt req fs]
  show "map written_entry (logFile (files_of (login rt req fs))) =
           logFile (files_of (login rt req fs))"
  proof
    assume "logFile (files_of (login rt req fs)) = logFile fs"
    then show ?thesis using assms by simp
  next
    assume "logFile (files_of (login rt req fs)) =
       logFile fs @
       [\<lparr>username = written (req_username req), date = toLocaleString rt (now req),
         success = (outcome_of (login rt req fs) = Sent (Json 200 True ''Login successful''))\<rparr>]"
    then show ?thesis
      using assms by (simp add: written_entry_def written_idem)
  qed
qed

lemma signup_log_unchanged: "logFile (files_of (signup rt req fs)) = logFile fs"
  by (simp add: signup_unfold files_of_def split: sum.splits)

lemma signup_no_log_access:
  "ReadFileSync LogFile \<notin> set (ops_of (signup rt req fs))
   \<and> WriteFileSync LogFile \<notin> set (ops_of (signup rt req fs))"
  by (simp add: signup_unfold ops_of_def split: sum.splits)

lemma signup_keeps_records:
  "usersFile fs k = Some r \<Longrightarrow> usersFile (files_of (signup rt req fs)) k = Some r"
  by (auto simp add: signup_unfold files_of_def dest: absent_not_present split: sum.splits)

section \<open>The entries of the attempt log\<close>

text \<open>
  What one call adds to the log, told from the call and its result: an attempt that
  wrote the log file added one entry, made of the username as written, the time of the
  attempt and whether the response was the 200 one; any other call added nothing.
\<close>

lemma handle_log:
  "logFile (files_of (handle rt c fs)) =
     logFile fs @
     (case c of
        Signup req \<Rightarrow> []
      | Login req \<Rightarrow>
          if WriteFileSync LogFile \<in> set (ops_of (handle rt c fs)) then
            [\<lparr>username = written (req_username req), date = toLocaleString rt (now req),
              success = (outcome_of (handle rt c fs) =
                           Sent (Json 200 True ''Login successful''))\<rparr>]
          else [])"
proof (cases c)
  case (Signup req)
  then show ?thesis by (simp add: signup_log_unchanged)
next
  case (Login req)
  then show ?thesis
    by (simp add: login_unfold files_of_def ops_of_def outcome_of_def split: sum.splits)
qed

lemma serve_log:
  "logFile (serve rt cs fs) =
     logFile fs @
     concat (map (\<lambda>(c, r).
         case c of
           Signup req \<Rightarrow> []
         | Login req \<Rightarrow>
             if WriteFileSync LogFile \<in> set (ops_of r) then
               [\<lparr>username = written (req_username req), date = toLocaleString rt (now req),
                 success = (outcome_of r = Sent (Json 200 True ''Login successful''))\<rparr>]
             else [])
       (zip cs (results rt cs fs)))"
proof (induction cs arbitrary: fs)
  case Nil
  then show ?case by simp
next
  case (Cons c cs)
  show ?case
    by (simp add: Cons.IH [of "files_of (handle rt c fs)"] handle_log [of rt c fs])
qed

text \<open>
  A username sent as \<^verbatim>\<open>1e400\<close> is the number \<^verbatim>\<open>Infinity\<close> in memory: it finds the record
  under the key \<^verbatim>\<open>Infinity\<close>, and the entry of the attempt holds \<^verbatim>\<open>null\<close>.
\<close>

lemma non_finite_username_is_logged_as_null:
  "login example_runtime
     (post (Obj [(''username'', Num ''Infinity''), (''password'', Str ''secret1'')]) 2)
     \<lparr>usersFile = [''Infinity'' \<mapsto> alice_record], logFile = []\<rparr> =
   (Sent (Json 200 True ''Login successful''),
    \<lparr>usersFile = [''Infinity'' \<mapsto> alice_record],
     logFile = [\<lparr>username = Null, date = ''LL'', success = True\<rparr>]\<rparr>,
    [ReadFileSync UsersFile, ReadFileSync LogFile, WriteFileSync LogFile])"
  by (simp add: login_unfold req_username_def req_password_def post_def js_or_def js_not_def
      lookup_def example_runtime_simps alice_record_def written_number_def numeral_2_eq_2)

lemma login_log_independent_of_password:
  assumes "req_username req1 = req_username req2" "now req1 = now req2"
    and "outcome_of (login rt req1 fs) = outcome_of (login rt req2 fs)"
  shows "logFile (files_of (login rt req1 fs)) = logFile (files_of (login rt req2 fs))"
  using assms
  by (auto simp add: login_unfold [of rt req1] login_unfold [of rt req2] files_of_def
      outcome_of_def split: sum.splits if_splits)

lemma serve_keeps_records:
  "usersFile fs k = Some r \<Longrightarrow> usersFile (serve rt cs fs) k = Some r"
proof (induction cs arbitrary: fs)
  case Nil
  then show ?case by simp
next
  case (Cons c cs)
  have "usersFile (files_of (handle rt c fs)) k = Some r"
    using Cons.prems by (cases c) (simp_all add: signup_keeps_records login_users_unchanged)
  then show ?case by (simp add: Cons.IH)
qed

lemma serve_log_extends: "\<exists>es. logFile (serve rt cs fs) = logFile fs @ es"
proof (induction cs arbitrary: fs)
  case Nil
  then show ?case by simp
next
  case (Cons c cs)
  have "\<exists>es. logFile (files_of (handle rt c fs)) = logFile fs @ es"
  proof (cases c)
    case (Signup req)
    then show ?thesis by (simp add: signup_log_unchanged)
  next
    case (Login req)
    from login_log_cases [of rt req fs] show ?thesis
    proof
      assume "logFile (files_of (login rt req fs)) = logFile fs"
      then have "logFile (files_of (handle rt c fs)) = logFile fs @ []"
        by (simp add: Login)
      then show ?thesis ..
    next
      assume "logFile (files_of (login rt req fs)) =
        logFile fs @
        [\<lparr>username = written (req_username req), date = toLocaleString rt (now req),
          success = (outcome_of (login rt req fs) = Sent (Json 200 True ''Login successful''))\<rparr>]"
      then show ?thesis by (simp add: Login)
    qed
  qed
  then obtain es where es: "logFile (files_of (handle rt c fs)) = logFile fs @ es" ..
  from Cons.IH [of "files_of (handle rt c fs)"]
  obtain es' where "logFile (serve rt cs (files_of (handle rt c fs))) =
      logFile (files_of (handle rt c fs)) @ es'" ..
  then show ?case by (simp add: es)
qed

section \<open>The properties of the specification\<close>

text \<open>
  C1 says that registering a new non-empty username with a non-empty password and then
  authenticating with the same pair succeeds both times. At the username \<^verbatim>\<open>toString\<close>,
  which has no record in the empty store, \<^verbatim>\<open>users[username]\<close> is the inherited method:
  registering answers 409 and stores nothing, and authenticating then throws in
  \<^verbatim>\<open>compareSync\<close>. Outside the names of \<^verbatim>\<open>Object.prototype\<close> the claim holds
  (\<open>signup_then_login_succeeds\<close>).
\<close>

theorem new_username_toString_conflicts:
  "usersFile no_files ''toString'' = None
   \<and> signup rt (post (credentials ''toString'' ''secret1'') 1) no_files =
       (Sent (Json 409 False ''Username already exists''), no_files, [ReadFileSync UsersFile])
   \<and> login rt (post (credentials ''toString'' ''secret1'') 2) no_files =
       (Threw IllegalArguments, no_files, [ReadFileSync UsersFile])"
  by (simp add: signup_post login_post lookup_def example_files object_prototype_names_def)

text \<open>
  C2 says that every attempt with a non-empty username and password appends exactly one
  entry to the attempt log, the username being unknown or not. An attempt on the
  unknown username \<^verbatim>\<open>bob\<close> is answered 401 before the log file is read: no entry is
  appended; the attempt on \<^verbatim>\<open>alice\<close> with a wrong password, answered 401 as well, appends
  its entry. An attempt on a username that has a record always appends one entry
  (\<open>login_known_user_logs_once\<close>).
\<close>

theorem unknown_username_attempt_not_logged:
  "usersFile alice_files ''bob'' = None
   \<and> login rt (post (credentials ''bob'' ''secret1'') 3) alice_files =
       (Sent (Json 401 False ''Invalid username or password''), alice_files,
        [ReadFileSync UsersFile])
   \<and> login example_runtime (post (credentials ''alice'' ''wrong'') 3) alice_files =
       (Sent (Json 401 False ''Invalid username or password''),
        alice_files\<lparr>logFile := [\<lparr>username = Str ''alice'', date = ''LLL'', success = False\<rparr>]\<rparr>,
        [ReadFileSync UsersFile, ReadFileSync LogFile, WriteFileSync LogFile])"
  by (simp add: login_post lookup_def example_files object_prototype_names_def
      example_runtime_simps alice_record_def numeral_3_eq_3)

text \<open>
  C3 says that registering answers 409 exactly when the username is already in the
  credential store. On the empty store, registering \<^verbatim>\<open>constructor\<close> answers 409 although
  no username is stored. Outside the names of \<^verbatim>\<open>Object.prototype\<close> the claim holds
  (\<open>signup_conflict_iff\<close>).
\<close>

theorem conflict_without_record:
  "dom (usersFile no_files) = {}
   \<and> signup rt (post (credentials ''constructor'' ''secret1'') 1) no_files =
       (Sent (Json 409 False ''Username already exists''), no_files, [ReadFileSync UsersFile])"
  by (simp add: signup_post lookup_def example_files object_prototype_names_def)

text \<open>
  C4 says that an attempt on a username absent from the store and an attempt with a
  wrong password on a present one get the same 401 response. The username \<^verbatim>\<open>valueOf\<close>
  is absent from the store that holds alice only, and the attempt on it throws instead
  of answering 401, while the wrong password for alice is answered 401. Outside the
  names of \<^verbatim>\<open>Object.prototype\<close> the two responses are the same
  (\<open>login_unknown_like_wrong_password\<close>).
\<close>

theorem prototype_username_login_throws:
  "usersFile alice_files ''valueOf'' = None
   \<and> login rt (post (credentials ''valueOf'' ''wrong'') 3) alice_files =
       (Threw IllegalArguments, alice_files, [ReadFileSync UsersFile])
   \<and> outcome_of (login example_runtime (post (credentials ''alice'' ''wrong'') 3) alice_files) =
       Sent (Json 401 False ''Invalid username or password'')"
  by (simp add: login_post lookup_def example_files object_prototype_names_def
      alice_record_def example_runtime_simps outcome_of_def)

text \<open>
  C5. A request whose username or password is missing (\<open>Undefined\<close>) or empty
  (\<open>Str []\<close>), or any other value that \<^verbatim>\<open>!\<close> takes for false, is answered by both
  handlers with the 400 validation response before any storage access: no file is read
  or written and both documents are unchanged.
\<close>

theorem validation_precedes_storage:
  assumes "js_not (req_username req) \<or> js_not (req_password req)"
  shows "signup rt req fs =
           (Sent (Json 400 False ''Username and password are required''), fs, [])
       \<and> login rt req fs =
           (Sent (Json 400 False ''Username and password are required''), fs, [])"
  using assms by (simp add: signup_unfold login_unfold)

theorem validation_precedes_storage_witness:
  "signup example_runtime (post (Obj [(''username'', Str ''alice'')]) 5) alice_files =
     (Sent (Json 400 False ''Username and password are required''), alice_files, [])
   \<and> login example_runtime (post (Obj [(''username'', Str ''alice'')]) 5) alice_files =
     (Sent (Json 400 False ''Username and password are required''), alice_files, [])
   \<and> signup example_runtime (post (credentials [] ''secret1'') 5) alice_files =
     (Sent (Json 400 False ''Username and password are required''), alice_files, [])
   \<and> login example_runtime (post (credentials [] ''secret1'') 5) alice_files =
     (Sent (Json 400 False ''Username and password are required''), alice_files, [])"
proof -
  have missing: "js_not (req_password (post (Obj [(''username'', Str ''alice'')]) 5))"
    by (simp add: req_password_def post_def js_or_def js_not_def)
  have empty: "js_not (req_username (post (credentials [] ''secret1'') 5))"
    by (simp add: req_username_def post_def credentials_def js_or_def js_not_def)
  from validation_precedes_storage [OF disjI2, OF missing]
       validation_precedes_storage [OF disjI1, OF empty]
  show ?thesis by simp
qed

text \<open>
  C6 says that every entry written to the attempt log is a username string, a timestamp
  string and a success boolean, and that no call's plaintext password appears in the
  log. The handler tests the username for truth only and writes it as it came: after
  alice has registered, the attempt with the username \<^verbatim>\<open>["alice"]\<close> and her password
  finds her record under the key \<^verbatim>\<open>alice\<close>, succeeds, and writes an entry whose username
  is the array, not a string.
\<close>

theorem log_entry_username_not_a_string:
  "logFile (serve example_runtime
      [Signup (post (credentials ''alice'' ''secret1'') 1),
       Login (post (Obj [(''username'', Arr [Str ''alice'']), (''password'', Str ''secret1'')]) 2)]
      no_files) =
     [\<lparr>username = Arr [Str ''alice''], date = ''LL'', success = True\<rparr>]"
proof -
  have attempt:
    "logFile (files_of (login example_runtime
        (post (Obj [(''username'', Arr [Str ''alice'']), (''password'', Str ''secret1'')]) 2)
        alice_files)) =
      [\<lparr>username = Arr [Str ''alice''], date = ''LL'', success = True\<rparr>]"
    by (simp add: login_unfold req_username_def req_password_def post_def js_or_def js_not_def
        lookup_def example_runtime_simps alice_files_def alice_record_def files_of_def
        numeral_2_eq_2)
  show ?thesis
    by (simp add: alice_registered attempt)
qed

text \<open>
  C6, amended. Every entry written to the attempt log consists of exactly three fields:
  the username of the attempt as \<^verbatim>\<open>JSON.stringify\<close> writes the value the request sent (a
  string is written as it was sent), the time of the attempt as a locale string, and
  the boolean that is true exactly when the attempt got the 200 response. Over every
  sequence of register and authenticate calls the log grows by exactly these entries, in
  the order of the calls, one for each attempt that wrote the log file. No call's
  password is written: an entry is made of the request's username, its time and its
  response, and two attempts with the same username at the same time that get the same
  response leave the same log, whatever their passwords.
\<close>

theorem attempt_log_entries:
  "logFile (serve rt cs fs) =
     logFile fs @
     concat (map (\<lambda>(c, r).
         case c of
           Signup req \<Rightarrow> []
         | Login req \<Rightarrow>
             if WriteFileSync LogFile \<in> set (ops_of r) then
               [\<lparr>username = written (req_username req), date = toLocaleString rt (now req),
                 success = (outcome_of r = Sent (Json 200 True ''Login successful''))\<rparr>]
             else [])
       (zip cs (results rt cs fs)))
   \<and> written (Str s) = Str s
   \<and> (req_username req' = req_username req \<and> now req' = now req
        \<and> outcome_of (login rt req' fs) = outcome_of (login rt req fs) \<longrightarrow>
        logFile (files_of (login rt req' fs)) = logFile (files_of (login rt req fs)))"
  using serve_log [of rt cs fs] login_log_independent_of_password [of req' req rt fs]
  by simp

theorem attempt_log_entries_witness:
  "logFile (serve example_runtime
      [Login (post (credentials ''alice'' ''wrong'') 2),
       Login (post (credentials ''bob'' ''secret1'') 2),
       Signup (post (credentials ''bob'' ''secret1'') 2),
       Login (post (credentials ''alice'' ''secret1'') 3)] alice_files) =
     [\<lparr>username = Str ''alice'', date = ''LL'', success = False\<rparr>,
      \<lparr>username = Str ''alice'', date = ''LLL'', success = True\<rparr>]
   \<and> logFile (files_of (login example_runtime (post (credentials ''alice'' ''hunter2'') 2)
        alice_files)) =
       logFile (files_of (login example_runtime (post (credentials ''alice'' ''wrong'') 2)
        alice_files))"
proof -
  let ?cs = "[Login (post (credentials ''alice'' ''wrong'') 2),
              Login (post (credentials ''bob'' ''secret1'') 2),
              Signup (post (credentials ''bob'' ''secret1'') 2),
              Login (post (credentials ''alice'' ''secret1'') 3)]"
  have same:
    "req_username (post (credentials ''alice'' ''hunter2'') 2) =
       req_username (post (credentials ''alice'' ''wrong'') 2)
     \<and> now (post (credentials ''alice'' ''hunter2'') 2) =
         now (post (credentials ''alice'' ''wrong'') 2)
     \<and> outcome_of (login example_runtime (post (credentials ''alice'' ''hunter2'') 2) alice_files) =
         outcome_of (login example_runtime (post (credentials ''alice'' ''wrong'') 2) alice_files)"
    by (simp add: post_simps login_post lookup_def example_files outcome_of_def
        example_runtime_simps alice_record_def)
  from attempt_log_entries
         [of example_runtime ?cs alice_files _ "post (credentials ''alice'' ''hunter2'') 2"
            "post (credentials ''alice'' ''wrong'') 2"]
  have log: "logFile (serve example_runtime ?cs alice_files) =
     logFile alice_files @
     concat (map (\<lambda>(c, r).
         case c of
           Signup req \<Rightarrow> []
         | Login req \<Rightarrow>
             if WriteFileSync LogFile \<in> set (ops_of r) then
               [\<lparr>username = written (req_username req),
                 date = toLocaleString example_runtime (now req),
                 success = (outcome_of r = Sent (Json 200 True ''Login successful''))\<rparr>]
             else [])
       (zip ?cs (results example_runtime ?cs alice_files)))"
    and indep: "logFile (files_of (login example_runtime
        (post (credentials ''alice'' ''hunter2'') 2) alice_files)) =
       logFile (files_of (login example_runtime (post (credentials ''alice'' ''wrong'') 2)
        alice_files))"
    using same by blast+
  have "logFile (serve example_runtime ?cs alice_files) =
     [\<lparr>username = Str ''alice'', date = ''LL'', success = False\<rparr>,
      \<lparr>username = Str ''alice'', date = ''LLL'', success = True\<rparr>]"
    unfolding log
    by (simp add: login_post signup_post lookup_def example_files files_of_def ops_of_def
        outcome_of_def example_runtime_simps alice_record_def object_prototype_names_def
        post_simps numeral_2_eq_2 numeral_3_eq_3)
  with indep show ?thesis by simp
qed

text \<open>
  C7. Authenticating leaves every credential record as it is, never writes the users
  file, and leaves the attempt log as it is or with one entry added at its end.
  Registering never reads or writes the attempt log, and every record that was in the
  store is still there, unchanged. Over any sequence of calls the records present at
  the start stay as they are and the log at the start stays a prefix of the log.
\<close>

theorem handlers_keep_persisted_state:
  "usersFile (files_of (login rt req fs)) = usersFile fs
   \<and> WriteFileSync UsersFile \<notin> set (ops_of (login rt req fs))
   \<and> (logFile (files_of (login rt req fs)) = logFile fs
        \<or> (\<exists>e. logFile (files_of (login rt req fs)) = logFile fs @ [e]))
   \<and> logFile (files_of (signup rt req fs)) = logFile fs
   \<and> ReadFileSync LogFile \<notin> set (ops_of (signup rt req fs))
   \<and> WriteFileSync LogFile \<notin> set (ops_of (signup rt req fs))
   \<and> (\<forall>k r. usersFile fs k = Some r \<longrightarrow>
          usersFile (files_of (signup rt req fs)) k = Some r)
   \<and> (\<forall>k r. usersFile fs k = Some r \<longrightarrow> usersFile (serve rt cs fs) k = Some r)
   \<and> (\<exists>es. logFile (serve rt cs fs) = logFile fs @ es)"
proof -
  have "logFile (files_of (login rt req fs)) = logFile fs
        \<or> (\<exists>e. logFile (files_of (login rt req fs)) = logFile fs @ [e])"
    using login_log_cases [of rt req fs] by blast
  then show ?thesis
    using signup_no_log_access [of rt req fs] serve_log_extends [of rt cs fs]
    by (simp add: login_users_unchanged login_no_users_write signup_log_unchanged
        signup_keeps_records serve_keeps_records)
qed

theorem handlers_keep_persisted_state_witness:
  "usersFile (files_of (signup example_runtime (post (credentials ''bob'' ''hunter2'') 2)
      alice_files)) ''alice'' = Some alice_record
   \<and> usersFile (serve example_runtime
        [Signup (post (credentials ''alice'' ''other'') 2),
         Login (post (credentials ''alice'' ''other'') 3),
         Signup (post (credentials ''bob'' ''hunter2'') 4)] alice_files) ''alice'' =
       Some alice_record
   \<and> usersFile (files_of (login example_runtime (post (credentials ''alice'' ''secret1'') 3)
        alice_files)) = [''alice'' \<mapsto> alice_record]"
proof -
  have h: "usersFile alice_files ''alice'' = Some alice_record"
    by (simp add: example_files)
  from handlers_keep_persisted_state
         [of example_runtime "post (credentials ''bob'' ''hunter2'') 2" alice_files
            "[Signup (post (credentials ''alice'' ''other'') 2),
              Login (post (credentials ''alice'' ''other'') 3),
              Signup (post (credentials ''bob'' ''hunter2'') 4)]"]
       handlers_keep_persisted_state
         [of example_runtime "post (credentials ''alice'' ''secret1'') 3" alice_files "[]"]
       h
  show ?thesis by (simp add: example_files)
qed

text \<open>
  C8. In the client-side simulation, submitting the login form makes no network call:
  whatever username and password were typed, the handler prevents the default
  submission, waits on a 300 ms timer and calls the success callback with the typed
  username; the application then holds that user and renders the dashboard, and the
  form shows no error.
\<close>

theorem simulated_login_always_succeeds:
  "LoginForm_submit handleAuthSuccess f a =
     ([PreventDefault, SetTimeout 300],
      f\<lparr>error_message := [], loading := False\<rparr>,
      \<lparr>view = ''dashboard'', user = Obj [(''username'', Str (username_input f))]\<rparr>)
   \<and> Fetch url \<notin> set (fst (LoginForm_submit handleAuthSuccess f a))
   \<and> App_render \<lparr>view = ''dashboard'', user = Obj [(''username'', Str (username_input f))]\<rparr> =
       [Dashboard (Obj [(''username'', Str (username_input f))])]"
  by (simp add: LoginForm_submit_def handleAuthSuccess_def App_render_def)

text \<open>
  C9. On the empty credential store, \<^verbatim>\<open>users[k]\<close> is true in a condition for exactly the
  names \<open>k\<close> of \<^verbatim>\<open>Object.prototype\<close>, none of which was registered. For such a name and
  a non-empty password, registering answers 409 and writes nothing, and authenticating
  does not answer 401: it calls \<^verbatim>\<open>compareSync\<close> with the missing \<^verbatim>\<open>passwordHash\<close>, which
  throws.
\<close>

theorem prototype_names_count_as_users:
  assumes "req_username req = Str k" "req_password req = Str p" "p \<noteq> []"
    and "usersFile fs = Map.empty"
  shows "(present (lookup (usersFile fs) k) \<longleftrightarrow> k \<in> set object_prototype_names)
       \<and> (k \<in> set object_prototype_names \<longrightarrow>
            signup rt req fs =
              (Sent (Json 409 False ''Username already exists''), fs, [ReadFileSync UsersFile])
          \<and> passwordHash_of (lookup (usersFile fs) k) = None
          \<and> bcrypt_compareSync rt (req_password req)
               (passwordHash_of (lookup (usersFile fs) k)) = Inl IllegalArguments
          \<and> login rt req fs = (Threw IllegalArguments, fs, [ReadFileSync UsersFile]))"
proof -
  have l: "lookup (usersFile fs) k =
      (if k \<in> set object_prototype_names then Inherited else Missing)"
    by (simp add: lookup_def assms(4))
  have "k \<noteq> []" if "k \<in> set object_prototype_names"
    using that by (auto simp add: object_prototype_names_def)
  then show ?thesis
    by (simp add: l assms(2) signup_string [OF assms(1) _ assms(2,3)]
        login_string [OF assms(1) _ assms(2,3)])
qed

theorem prototype_names_count_as_users_witness:
  "present (lookup (usersFile no_files) ''constructor'')
   \<and> signup example_runtime (post (credentials ''constructor'' ''secret1'') 1) no_files =
       (Sent (Json 409 False ''Username already exists''), no_files, [ReadFileSync UsersFile])
   \<and> login example_runtime (post (credentials ''constructor'' ''secret1'') 2) no_files =
       (Threw IllegalArguments, no_files, [ReadFileSync UsersFile])
   \<and> \<not> present (lookup (usersFile no_files) ''alice'')"
proof -
  have names: "''constructor'' \<in> set object_prototype_names"
      "''alice'' \<notin> set object_prototype_names"
    by (simp_all add: object_prototype_names_def)
  from prototype_names_count_as_users
         [where req = "post (credentials ''constructor'' ''secret1'') 1"
            and k = "''constructor''" and p = "''secret1''" and fs = no_files
            and rt = example_runtime]
       prototype_names_count_as_users
         [where req = "post (credentials ''constructor'' ''secret1'') 2"
            and k = "''constructor''" and p = "''secret1''" and fs = no_files
            and rt = example_runtime]
       prototype_names_count_as_users
         [where req = "post (credentials ''alice'' ''secret1'') 2"
            and k = "''alice''" and p = "''secret1''" and fs = no_files
            and rt = example_runtime]
       names
  show ?thesis by (simp add: post_simps example_files)
qed

text \<open>
  C10. A request whose body is absent (\<open>Undefined\<close>) or is not an object is not
  destructured as it is: \<^verbatim>\<open>req.body || {}\<close> and the property reads make both fields
  \<open>Undefined\<close>, and both handlers answer with the 400 validation response instead of
  throwing.
\<close>

theorem body_not_an_object_is_rejected:
  assumes "\<forall>ps. body req \<noteq> Obj ps"
  shows "req_username req = Undefined \<and> req_password req = Undefined
       \<and> signup rt req fs =
           (Sent (Json 400 False ''Username and password are required''), fs, [])
       \<and> login rt req fs =
           (Sent (Json 400 False ''Username and password are required''), fs, [])"
proof -
  have u: "req_username req = Undefined" and p: "req_password req = Undefined"
    using assms by (simp_all add: req_username_def req_password_def get_prop_not_object)
  have "js_not (req_username req) \<or> js_not (req_password req)"
    by (simp add: u js_not_def)
  then show ?thesis
    using u p by (simp add: signup_unfold login_unfold)
qed

theorem body_not_an_object_is_rejected_witness:
  "signup example_runtime (post Undefined 5) alice_files =
     (Sent (Json 400 False ''Username and password are required''), alice_files, [])
   \<and> login example_runtime (post Undefined 5) alice_files =
     (Sent (Json 400 False ''Username and password are required''), alice_files, [])
   \<and> signup example_runtime (post (Arr [Str ''alice'', Str ''secret1'']) 5) alice_files =
     (Sent (Json 400 False ''Username and password are required''), alice_files, [])
   \<and> login example_runtime (post (Str ''alice'') 5) alice_files =
     (Sent (Json 400 False ''Username and password are required''), alice_files, [])"
proof -
  have a: "\<forall>ps. body (post Undefined 5) \<noteq> Obj ps"
    and b: "\<forall>ps. body (post (Arr [Str ''alice'', Str ''secret1'']) 5) \<noteq> Obj ps"
    and c: "\<forall>ps. body (post (Str ''alice'') 5) \<noteq> Obj ps"
    by (simp_all add: post_def)
  from body_not_an_object_is_rejected [OF a] body_not_an_object_is_rejected [OF b]
       body_not_an_object_is_rejected [OF c]
  show ?thesis by simp
qed

end
